theory Spec2Isabelle
  imports Main "HOL-Library.AList"
begin

section \<open>Python values\<close>

text \<open>
  The handler of \<^verbatim>\<open>examples/src/lambda_function.py\<close> receives Python objects. The
  values modelled here are the ones \<^verbatim>\<open>json\<close> can decode (without floating point
  numbers), and \<open>PyOpaque\<close> for every object that \<^verbatim>\<open>json.dumps\<close> refuses (a set,
  bytes, a mock); it carries the text of its \<^verbatim>\<open>repr\<close>. A \<open>char\<close> stands for the
  code point of the same number, so a \<open>string\<close> is a Python \<^verbatim>\<open>str\<close> over
  U+0000..U+00FF. A \<^verbatim>\<open>dict\<close> is the list of its items in insertion order; its
  keys are strings.
\<close>

datatype pyval =
    PyNone
  | PyBool bool
  | PyInt int
  | PyStr string
  | PyList "pyval list"
  | PyDict "(string \<times> pyval) list"
  | PyOpaque string

datatype error = TypeError | AttributeError

text \<open>A Python \<^verbatim>\<open>dict\<close> has no key twice, at any depth.\<close>

fun wf_pyval :: "pyval \<Rightarrow> bool"
  and wf_list :: "pyval list \<Rightarrow> bool"
  and wf_items :: "(string \<times> pyval) list \<Rightarrow> bool" where
  "wf_pyval (PyList xs) = wf_list xs"
| "wf_pyval (PyDict kvs) = (distinct (map fst kvs) \<and> wf_items kvs)"
| "wf_pyval v = True"
| "wf_list [] = True"
| "wf_list (x # xs) = (wf_pyval x \<and> wf_list xs)"
| "wf_items [] = True"
| "wf_items (kv # kvs) = (wf_pyval (snd kv) \<and> wf_items kvs)"

section \<open>Text of integers\<close>

definition digit_char :: "nat \<Rightarrow> char" where
  "digit_char d = char_of (48 + d)"

function nat_repr :: "nat \<Rightarrow> string" where
  "nat_repr n = (if n < 10 then [digit_char n] else nat_repr (n div 10) @ [digit_char (n mod 10)])"
  by pat_completeness auto
termination
  by (relation "measure id") auto

declare nat_repr.simps [simp del]

text \<open>
  \<^verbatim>\<open>int.__repr__\<close>: decimal digits, a minus sign for a negative number. (The limit
  of 4300 digits that Python 3.11 puts on this conversion is not modelled.)
\<close>

definition int_repr :: "int \<Rightarrow> string" where
  "int_repr i = (if i < 0 then CHR ''-'' # nat_repr (nat (- i)) else nat_repr (nat i))"

section \<open>\<^verbatim>\<open>json.dumps\<close>\<close>

definition hexdigit :: "nat \<Rightarrow> char" where
  "hexdigit d = (if d < 10 then char_of (48 + d) else char_of (87 + d))"

text \<open>\<^verbatim>\<open>'\\u{0:04x}'.format(n)\<close> without the backslash.\<close>

definition u_hex4 :: "nat \<Rightarrow> string" where
  "u_hex4 n = [CHR ''u'', hexdigit (n div 4096 mod 16), hexdigit (n div 256 mod 16),
               hexdigit (n div 16 mod 16), hexdigit (n mod 16)]"

text \<open>
  \<^verbatim>\<open>json.encoder.py_encode_basestring_ascii\<close>: the backslash, the double quote and
  every character outside \<^verbatim>\<open>' '..'~'\<close> are replaced, by the short escape of
  \<^verbatim>\<open>ESCAPE_DCT\<close> where there is one and by \<^verbatim>\<open>\uXXXX\<close> otherwise.
\<close>

definition escape_char :: "char \<Rightarrow> string" where
  "escape_char c =
     (if c = CHR 0x5C then [CHR 0x5C, CHR 0x5C]
      else if c = CHR 0x22 then [CHR 0x5C, CHR 0x22]
      else if c = CHR 0x08 then [CHR 0x5C, CHR ''b'']
      else if c = CHR 0x0C then [CHR 0x5C, CHR ''f'']
      else if c = CHR 0x0A then [CHR 0x5C, CHR ''n'']
      else if c = CHR 0x0D then [CHR 0x5C, CHR ''r'']
      else if c = CHR 0x09 then [CHR 0x5C, CHR ''t'']
      else if 32 \<le> (of_char c :: nat) \<and> (of_char c :: nat) \<le> 126 then [c]
      else CHR 0x5C # u_hex4 (of_char c))"

definition encode_basestring_ascii :: "string \<Rightarrow> string" where
  "encode_basestring_ascii s = CHR 0x22 # concat (map escape_char s) @ [CHR 0x22]"

text \<open>
  \<^verbatim>\<open>json.dumps(obj)\<close> with its default arguments: item separator \<^verbatim>\<open>', '\<close>, key
  separator \<^verbatim>\<open>': '\<close>, keys in insertion order, \<^verbatim>\<open>ensure_ascii=True\<close>. An object
  that is not serializable raises \<^verbatim>\<open>TypeError\<close> and nothing is returned.
  \<open>dumps_list\<close> and \<open>dumps_items\<close> give the text between the brackets.
\<close>

fun json_dumps :: "pyval \<Rightarrow> error + string"
  and dumps_list :: "pyval list \<Rightarrow> error + string"
  and dumps_items :: "(string \<times> pyval) list \<Rightarrow> error + string" where
  "json_dumps PyNone = Inr ''null''"
| "json_dumps (PyBool b) = Inr (if b then ''true'' else ''false'')"
| "json_dumps (PyInt i) = Inr (int_repr i)"
| "json_dumps (PyStr s) = Inr (encode_basestring_ascii s)"
| "json_dumps (PyList xs) =
     (case dumps_list xs of Inl e \<Rightarrow> Inl e | Inr s \<Rightarrow> Inr (''['' @ s @ '']''))"
| "json_dumps (PyDict kvs) =
     (case dumps_items kvs of Inl e \<Rightarrow> Inl e | Inr s \<Rightarrow> Inr (''{'' @ s @ ''}''))"
| "json_dumps (PyOpaque r) = Inl TypeError"
| "dumps_list [] = Inr []"
| "dumps_list [x] = json_dumps x"
| "dumps_list (x # y # ys) =
     (case json_dumps x of Inl e \<Rightarrow> Inl e
      | Inr s \<Rightarrow> (case dumps_list (y # ys) of Inl e \<Rightarrow> Inl e | Inr t \<Rightarrow> Inr (s @ '', '' @ t)))"
| "dumps_items [] = Inr []"
| "dumps_items [kv] =
     (case json_dumps (snd kv) of Inl e \<Rightarrow> Inl e
      | Inr s \<Rightarrow> Inr (encode_basestring_ascii (fst kv) @ '': '' @ s))"
| "dumps_items (kv # kv' # kvs) =
     (case json_dumps (snd kv) of Inl e \<Rightarrow> Inl e
      | Inr s \<Rightarrow>
          (case dumps_items (kv' # kvs) of Inl e \<Rightarrow> Inl e
           | Inr t \<Rightarrow> Inr (encode_basestring_ascii (fst kv) @ '': '' @ s @ '', '' @ t)))"

section \<open>\<^verbatim>\<open>json.loads\<close>\<close>

text \<open>
  The claims read the body of the response through a JSON parser. \<open>json_loads\<close> follows
  \<^verbatim>\<open>json.loads\<close> of the Python library (\<^verbatim>\<open>json.decoder\<close>, \<^verbatim>\<open>json.scanner\<close>)
  on the values of \<open>pyval\<close>: \<open>None\<close> stands for \<^verbatim>\<open>JSONDecodeError\<close>, and also for
  a text whose value is not a \<open>pyval\<close> (a number with a fraction or an exponent,
  \<^verbatim>\<open>NaN\<close>, \<^verbatim>\<open>Infinity\<close>, an escape \<^verbatim>\<open>\uXXXX\<close> above U+00FF).
\<close>

definition is_ws :: "char \<Rightarrow> bool" where
  "is_ws c = (c = CHR '' '' \<or> c = CHR 0x09 \<or> c = CHR 0x0A \<or> c = CHR 0x0D)"

definition skip_ws :: "string \<Rightarrow> string" where
  "skip_ws s = dropWhile is_ws s"

definition is_digit :: "char \<Rightarrow> bool" where
  "is_digit c = (48 \<le> (of_char c :: nat) \<and> (of_char c :: nat) \<le> 57)"

definition digits_val :: "string \<Rightarrow> nat" where
  "digits_val ds = foldl (\<lambda>acc c. 10 * acc + (of_char c - 48)) 0 ds"

text \<open>The integer part of \<^verbatim>\<open>NUMBER_RE\<close>, after the sign: \<^verbatim>\<open>0|[1-9][0-9]*\<close>.\<close>

definition match_int :: "string \<Rightarrow> (string \<times> string) option" where
  "match_int s =
     (case s of
        [] \<Rightarrow> None
      | c # cs \<Rightarrow>
          if c = CHR ''0'' then Some ([c], cs)
          else if is_digit c then Some (c # takeWhile is_digit cs, dropWhile is_digit cs)
          else None)"

text \<open>
  What follows the integer part makes the number a float: \<^verbatim>\<open>\.[0-9]+\<close> or
  \<^verbatim>\<open>[eE][-+]?[0-9]+\<close>.
\<close>

definition float_tail :: "string \<Rightarrow> bool" where
  "float_tail r =
     (case r of
        [] \<Rightarrow> False
      | c # cs \<Rightarrow>
          if c = CHR ''.'' then (case cs of [] \<Rightarrow> False | d # _ \<Rightarrow> is_digit d)
          else if c = CHR ''e'' \<or> c = CHR ''E'' then
            (case cs of
               [] \<Rightarrow> False
             | d # ds \<Rightarrow>
                 if d = CHR ''-'' \<or> d = CHR ''+''
                 then (case ds of [] \<Rightarrow> False | d' # _ \<Rightarrow> is_digit d')
                 else is_digit d)
          else False)"

definition parse_number :: "string \<Rightarrow> (pyval \<times> string) option" where
  "parse_number s =
     (case s of
        [] \<Rightarrow> None
      | c # cs \<Rightarrow>
          (case (if c = CHR ''-'' then match_int cs else match_int s) of
             None \<Rightarrow> None
           | Some (ds, r) \<Rightarrow>
               if float_tail r then None
               else Some (PyInt (if c = CHR ''-'' then - int (digits_val ds)
                                 else int (digits_val ds)), r)))"

definition hex_val :: "char \<Rightarrow> nat option" where
  "hex_val c =
     (let n = (of_char c :: nat) in
      if 48 \<le> n \<and> n \<le> 57 then Some (n - 48)
      else if 97 \<le> n \<and> n \<le> 102 then Some (n - 87)
      else if 65 \<le> n \<and> n \<le> 70 then Some (n - 55)
      else None)"

definition hex4_val :: "char \<Rightarrow> char \<Rightarrow> char \<Rightarrow> char \<Rightarrow> nat option" where
  "hex4_val a b c d =
     (case hex_val a of None \<Rightarrow> None | Some x \<Rightarrow>
      (case hex_val b of None \<Rightarrow> None | Some y \<Rightarrow>
       (case hex_val c of None \<Rightarrow> None | Some z \<Rightarrow>
        (case hex_val d of None \<Rightarrow> None | Some w \<Rightarrow>
           Some (((x * 16 + y) * 16 + z) * 16 + w)))))"

text \<open>The table \<^verbatim>\<open>BACKSLASH\<close> of \<^verbatim>\<open>json.decoder\<close>.\<close>

definition unescape :: "char \<Rightarrow> char option" where
  "unescape e =
     (if e = CHR 0x22 then Some (CHR 0x22)
      else if e = CHR 0x5C then Some (CHR 0x5C)
      else if e = CHR ''/'' then Some (CHR ''/'')
      else if e = CHR ''b'' then Some (CHR 0x08)
      else if e = CHR ''f'' then Some (CHR 0x0C)
      else if e = CHR ''n'' then Some (CHR 0x0A)
      else if e = CHR ''r'' then Some (CHR 0x0D)
      else if e = CHR ''t'' then Some (CHR 0x09)
      else None)"

text \<open>
  \<^verbatim>\<open>py_scanstring\<close> with \<^verbatim>\<open>strict=True\<close>, on the text after the opening quote:
  the decoded string and the text after the closing quote. A control character that
  is not escaped is an error.
\<close>

fun scanstring :: "string \<Rightarrow> (string \<times> string) option" where
  "scanstring [] = None"
| "scanstring (c # cs) =
     (if c = CHR 0x22 then Some ([], cs)
      else if c = CHR 0x5C then
        (case cs of
           [] \<Rightarrow> None
         | e # cs1 \<Rightarrow>
             if e = CHR ''u'' then
               (case cs1 of
                  h1 # h2 # h3 # h4 # cs2 \<Rightarrow>
                    (case hex4_val h1 h2 h3 h4 of
                       None \<Rightarrow> None
                     | Some n \<Rightarrow>
                         if n < 256
                         then (case scanstring cs2 of
                                 None \<Rightarrow> None
                               | Some (t, r) \<Rightarrow> Some (char_of n # t, r))
                         else None)
                | _ \<Rightarrow> None)
             else
               (case unescape e of
                  None \<Rightarrow> None
                | Some ch \<Rightarrow>
                    (case scanstring cs1 of
                       None \<Rightarrow> None
                     | Some (t, r) \<Rightarrow> Some (ch # t, r))))
      else if (of_char c :: nat) < 32 then None
      else (case scanstring cs of None \<Rightarrow> None | Some (t, r) \<Rightarrow> Some (c # t, r)))"

text \<open>
  \<^verbatim>\<open>dict(pairs)\<close>: a key met again keeps its place and takes the later value.
\<close>

definition py_dict :: "(string \<times> pyval) list \<Rightarrow> (string \<times> pyval) list" where
  "py_dict pairs = foldl (\<lambda>d kv. AList.update (fst kv) (snd kv) d) [] pairs"

text \<open>
  \<^verbatim>\<open>scan_once\<close>, and the bodies of \<^verbatim>\<open>JSONArray\<close> and \<^verbatim>\<open>JSONObject\<close> from the
  first value and the first key on. The recursion of the source is bounded by the
  first argument here; \<open>json_loads\<close> starts it with the length of the text.
\<close>

fun scan_once :: "nat \<Rightarrow> string \<Rightarrow> (pyval \<times> string) option"
  and array_values :: "nat \<Rightarrow> string \<Rightarrow> (pyval list \<times> string) option"
  and object_pairs :: "nat \<Rightarrow> string \<Rightarrow> ((string \<times> pyval) list \<times> string) option" where
  "scan_once 0 s = None"
| "scan_once (Suc n) [] = None"
| "scan_once (Suc n) (c # cs) =
     (if c = CHR 0x22 then
        (case scanstring cs of None \<Rightarrow> None | Some (t, r) \<Rightarrow> Some (PyStr t, r))
      else if c = CHR ''{'' then
        (case skip_ws cs of
           [] \<Rightarrow> None
         | d # r \<Rightarrow>
             if d = CHR ''}'' then Some (PyDict [], r)
             else (case object_pairs n (d # r) of
                     None \<Rightarrow> None
                   | Some (pairs, r') \<Rightarrow> Some (PyDict (py_dict pairs), r')))
      else if c = CHR ''['' then
        (case skip_ws cs of
           [] \<Rightarrow> None
         | d # r \<Rightarrow>
             if d = CHR '']'' then Some (PyList [], r)
             else (case array_values n (d # r) of
                     None \<Rightarrow> None
                   | Some (vs, r') \<Rightarrow> Some (PyList vs, r')))
      else if take 4 (c # cs) = ''null'' then Some (PyNone, drop 4 (c # cs))
      else if take 4 (c # cs) = ''true'' then Some (PyBool True, drop 4 (c # cs))
      else if take 5 (c # cs) = ''false'' then Some (PyBool False, drop 5 (c # cs))
      else parse_number (c # cs))"
| "array_values 0 s = None"
| "array_values (Suc n) s =
     (case scan_once n s of
        None \<Rightarrow> None
      | Some (v, r) \<Rightarrow>
          (case skip_ws r of
             [] \<Rightarrow> None
           | d # r1 \<Rightarrow>
               if d = CHR '']'' then Some ([v], r1)
               else if d = CHR '','' then
                 (case array_values n (skip_ws r1) of
                    None \<Rightarrow> None
                  | Some (vs, r2) \<Rightarrow> Some (v # vs, r2))
               else None))"
| "object_pairs 0 s = None"
| "object_pairs (Suc n) [] = None"
| "object_pairs (Suc n) (q # s1) =
     (if q \<noteq> CHR 0x22 then None
      else
        (case scanstring s1 of
           None \<Rightarrow> None
         | Some (key, r1) \<Rightarrow>
             (case skip_ws r1 of
                [] \<Rightarrow> None
              | col # r2 \<Rightarrow>
                  if col \<noteq> CHR '':'' then None
                  else
                    (case scan_once n (skip_ws r2) of
                       None \<Rightarrow> None
                     | Some (v, r3) \<Rightarrow>
                         (case skip_ws r3 of
                            [] \<Rightarrow> None
                          | d # r4 \<Rightarrow>
                              if d = CHR ''}'' then Some ([(key, v)], r4)
                              else if d = CHR '','' then
                                (case object_pairs n (skip_ws r4) of
                                   None \<Rightarrow> None
                                 | Some (pairs, r5) \<Rightarrow> Some ((key, v) # pairs, r5))
                              else None)))))"

definition json_loads :: "string \<Rightarrow> pyval option" where
  "json_loads s =
     (case scan_once (length s) (skip_ws s) of
        None \<Rightarrow> None
      | Some (v, r) \<Rightarrow> if skip_ws r = [] then Some v else None)"

section \<open>\<^verbatim>\<open>str\<close> and \<^verbatim>\<open>repr\<close>\<close>

text \<open>
  \<^verbatim>\<open>repr\<close> of a \<^verbatim>\<open>str\<close>: single quotes, unless the text has a single quote and
  no double quote; the quote and the backslash are escaped, so are tab, line feed and
  carriage return, and a character that is not printable is written \<^verbatim>\<open>\xhh\<close>. Below
  U+0100 the printable characters are \<^verbatim>\<open>' '..'~'\<close> and U+00A1..U+00FF without the
  soft hyphen U+00AD.
\<close>

definition repr_quote :: "string \<Rightarrow> char" where
  "repr_quote s = (if CHR 0x27 \<in> set s \<and> CHR 0x22 \<notin> set s then CHR 0x22 else CHR 0x27)"

definition x_hex2 :: "nat \<Rightarrow> string" where
  "x_hex2 n = [CHR 0x5C, CHR ''x'', hexdigit (n div 16 mod 16), hexdigit (n mod 16)]"

definition repr_char :: "char \<Rightarrow> char \<Rightarrow> string" where
  "repr_char q c =
     (let n = (of_char c :: nat) in
      if c = q \<or> c = CHR 0x5C then [CHR 0x5C, c]
      else if c = CHR 0x09 then [CHR 0x5C, CHR ''t'']
      else if c = CHR 0x0A then [CHR 0x5C, CHR ''n'']
      else if c = CHR 0x0D then [CHR 0x5C, CHR ''r'']
      else if n < 32 \<or> n = 127 then x_hex2 n
      else if n < 127 then [c]
      else if n < 161 \<or> n = 173 then x_hex2 n
      else [c])"

definition str_repr :: "string \<Rightarrow> string" where
  "str_repr s = (let q = repr_quote s in q # concat (map (repr_char q) s) @ [q])"

fun py_repr :: "pyval \<Rightarrow> string"
  and repr_list :: "pyval list \<Rightarrow> string"
  and repr_items :: "(string \<times> pyval) list \<Rightarrow> string" where
  "py_repr PyNone = ''None''"
| "py_repr (PyBool b) = (if b then ''True'' else ''False'')"
| "py_repr (PyInt i) = int_repr i"
| "py_repr (PyStr s) = str_repr s"
| "py_repr (PyList xs) = ''['' @ repr_list xs @ '']''"
| "py_repr (PyDict kvs) = ''{'' @ repr_items kvs @ ''}''"
| "py_repr (PyOpaque r) = r"
| "repr_list [] = []"
| "repr_list [x] = py_repr x"
| "repr_list (x # y # ys) = py_repr x @ '', '' @ repr_list (y # ys)"
| "repr_items [] = []"
| "repr_items [kv] = str_repr (fst kv) @ '': '' @ py_repr (snd kv)"
| "repr_items (kv # kv' # kvs) =
     str_repr (fst kv) @ '': '' @ py_repr (snd kv) @ '', '' @ repr_items (kv' # kvs)"

text \<open>
  \<^verbatim>\<open>str(obj)\<close>, which is what a replacement field \<^verbatim>\<open>{name}\<close> of an f-string
  inserts: a \<^verbatim>\<open>str\<close> is itself, every other value is its \<^verbatim>\<open>repr\<close>.
\<close>

fun py_str :: "pyval \<Rightarrow> string" where
  "py_str (PyStr s) = s"
| "py_str v = py_repr v"

section \<open>The environment, the event, the context and the logger\<close>

text \<open>\<^verbatim>\<open>os.environ\<close> maps names to texts; \<^verbatim>\<open>os.environ.get(key, default)\<close>.\<close>

type_synonym environ = "string \<rightharpoonup> string"

definition environ_get :: "environ \<Rightarrow> string \<Rightarrow> string \<Rightarrow> string" where
  "environ_get environ key dflt = (case environ key of None \<Rightarrow> dflt | Some v \<Rightarrow> v)"

text \<open>
  \<^verbatim>\<open>event.get(key, default)\<close>: the method of a \<^verbatim>\<open>dict\<close>. No other value of
  \<open>pyval\<close> has an attribute \<^verbatim>\<open>get\<close>, and looking it up raises
  \<^verbatim>\<open>AttributeError\<close>.
\<close>

fun event_get :: "pyval \<Rightarrow> string \<Rightarrow> pyval \<Rightarrow> error + pyval" where
  "event_get (PyDict kvs) key dflt =
     Inr (case map_of kvs key of None \<Rightarrow> dflt | Some v \<Rightarrow> v)"
| "event_get v key dflt = Inl AttributeError"

text \<open>
  The context is \<^verbatim>\<open>None\<close> or an object. \<open>truthy\<close> is what \<^verbatim>\<open>bool(context)\<close>
  gives (\<open>True\<close> for the context object of the Lambda runtime, whose class defines
  neither \<^verbatim>\<open>__bool__\<close> nor \<^verbatim>\<open>__len__\<close>); \<open>function_version\<close> is the value of
  the attribute of that name, \<open>None\<close> when the object has no such attribute.
\<close>

record lambda_context =
  truthy :: bool
  function_version :: "pyval option"

text \<open>\<^verbatim>\<open>context.function_version if context else "unknown"\<close>\<close>

definition context_function_version :: "lambda_context option \<Rightarrow> error + pyval" where
  "context_function_version context =
     (case context of
        None \<Rightarrow> Inr (PyStr ''unknown'')
      | Some c \<Rightarrow>
          if truthy c
          then (case function_version c of None \<Rightarrow> Inl AttributeError | Some v \<Rightarrow> Inr v)
          else Inr (PyStr ''unknown''))"

text \<open>
  The root logger, with \<^verbatim>\<open>logger.setLevel(logging.INFO)\<close> done at import. The state
  of the model is the list of the records emitted so far, each with its numeric level.
\<close>

type_synonym log = "(nat \<times> string) list"

definition INFO :: nat where
  "INFO = 20"

definition logger_level :: nat where
  "logger_level = INFO"

definition logger_info :: "string \<Rightarrow> log \<Rightarrow> log" where
  "logger_info msg lg = (if logger_level \<le> INFO then lg @ [(INFO, msg)] else lg)"

section \<open>The handler\<close>

text \<open>The response is the \<^verbatim>\<open>dict\<close> with the keys \<^verbatim>\<open>statusCode\<close> and \<^verbatim>\<open>body\<close>.\<close>

record response =
  statusCode :: int
  body :: string

definition response_dict :: "response \<Rightarrow> pyval" where
  "response_dict r = PyDict [(''statusCode'', PyInt (statusCode r)), (''body'', PyStr (body r))]"

text \<open>
  \<open>lambda_handler environ event context lg\<close> gives the outcome of the call, the returned
  response or the exception that leaves the handler, and the log after it. The source
  has no \<^verbatim>\<open>try\<close>: the first exception ends the call.
\<close>

definition lambda_handler ::
  "environ \<Rightarrow> pyval \<Rightarrow> lambda_context option \<Rightarrow> log \<Rightarrow> (error + response) \<times> log" where
  "lambda_handler environ event context lg =
     (case json_dumps event of
        Inl e \<Rightarrow> (Inl e, lg)
      | Inr ev \<Rightarrow>
          let lg1 = logger_info (''Received event: '' @ ev) lg;
              log_level = environ_get environ ''LOG_LEVEL'' ''INFO'';
              stage = environ_get environ ''STAGE'' ''development''
          in (case event_get event ''name'' (PyStr ''World'') of
                Inl e \<Rightarrow> (Inl e, lg1)
              | Inr name \<Rightarrow>
                  let message = ''Hello, '' @ py_str name @ ''!''
                  in (case context_function_version context of
                        Inl e \<Rightarrow> (Inl e, lg1)
                      | Inr fv \<Rightarrow>
                          (case json_dumps (PyDict [(''message'', PyStr message),
                                                    (''stage'', PyStr stage),
                                                    (''log_level'', PyStr log_level),
                                                    (''function_version'', fv)]) of
                             Inl e \<Rightarrow> (Inl e, lg1)
                           | Inr b \<Rightarrow>
                               let response = \<lparr>statusCode = 200, body = b\<rparr>
                               in (case json_dumps (response_dict response) of
                                     Inl e \<Rightarrow> (Inl e, lg1)
                                   | Inr rs \<Rightarrow>
                                       (Inr response,
                                        logger_info (''Returning response: '' @ rs) lg1))))))"

section \<open>Reading the body, and the shape of serialized text\<close>

text \<open>
  \<open>body_field r key\<close> is the value under \<open>key\<close> of the mapping that the body of the
  response parses to; \<open>None\<close> when the body is not the text of a mapping, or the
  mapping has no such key.
\<close>

definition body_field :: "response \<Rightarrow> string \<Rightarrow> pyval option" where
  "body_field r key =
     (case json_loads (body r) of
        Some (PyDict kvs) \<Rightarrow> map_of kvs key
      | _ \<Rightarrow> None)"

text \<open>The value of the attribute of the context is a Python value.\<close>

definition wf_context :: "lambda_context option \<Rightarrow> bool" where
  "wf_context context =
     (case context of
        None \<Rightarrow> True
      | Some c \<Rightarrow> (case function_version c of None \<Rightarrow> True | Some v \<Rightarrow> wf_pyval v))"

text \<open>
  Two predicates on text for the proofs about \<open>json_loads\<close>: what may come after a
  serialized value (the end, a comma or a closing bracket), and how a serialized
  value begins (not with white space, not with a closing bracket).
\<close>

definition follow :: "string \<Rightarrow> bool" where
  "follow r = (case r of [] \<Rightarrow> True | c # _ \<Rightarrow> c = CHR '','' \<or> c = CHR '']'' \<or> c = CHR ''}'')"

definition value_start :: "string \<Rightarrow> bool" where
  "value_start t = (case t of [] \<Rightarrow> False | c # _ \<Rightarrow> \<not> is_ws c \<and> c \<noteq> CHR '']'' \<and> c \<noteq> CHR ''}'')"

section \<open>Integers are read back\<close>

lemma of_char_digit_char: "d < 10 \<Longrightarrow> (of_char (digit_char d) :: nat) = 48 + d"
  by (simp add: digit_char_def)

lemma is_digit_digit_char: "d < 10 \<Longrightarrow> is_digit (digit_char d)"
  by (simp add: is_digit_def of_char_digit_char)

lemma digit_char_eq_zero: "d < 10 \<Longrightarrow> digit_char d = CHR ''0'' \<longleftrightarrow> d = 0"
proof -
  assume d: "d < 10"
  have "digit_char d = CHR ''0'' \<longleftrightarrow> (of_char (digit_char d) :: nat) = of_char (CHR ''0'')"
    by (metis of_char_eq_iff)
  also have "\<dots> \<longleftrightarrow> d = 0" using d by (simp add: of_char_digit_char)
  finally show ?thesis .
qed

lemma nat_repr_nonempty: "nat_repr n \<noteq> []"
  by (subst nat_repr.simps) simp

lemma nat_repr_digits: "c \<in> set (nat_repr n) \<Longrightarrow> is_digit c"
proof (induction n arbitrary: c rule: nat_repr.induct)
  case (1 n)
  show ?case
  proof (cases "n < 10")
    case True
    with "1.prems" show ?thesis
      by (subst (asm) nat_repr.simps) (simp add: is_digit_digit_char)
  next
    case False
    with "1.prems" have "c \<in> set (nat_repr (n div 10)) \<or> c = digit_char (n mod 10)"
      by (subst (asm) nat_repr.simps) auto
    with False "1.IH" show ?thesis
      by (auto simp: is_digit_digit_char)
  qed
qed

lemma digits_val_snoc: "digits_val (ds @ [c]) = 10 * digits_val ds + (of_char c - 48)"
  by (simp add: digits_val_def)

lemma digits_val_nat_repr: "digits_val (nat_repr n) = n"
proof (induction n rule: nat_repr.induct)
  case (1 n)
  show ?case
  proof (cases "n < 10")
    case True
    then show ?thesis
      by (subst nat_repr.simps) (simp add: digits_val_def of_char_digit_char)
  next
    case False
    with "1.IH" show ?thesis
      by (subst nat_repr.simps) (simp add: digits_val_snoc of_char_digit_char)
  qed
qed

lemma hd_nat_repr_zero: "hd (nat_repr n) = CHR ''0'' \<Longrightarrow> n = 0"
proof (induction n rule: nat_repr.induct)
  case (1 n)
  show ?case
  proof (cases "n < 10")
    case True
    with "1.prems" show ?thesis
      by (subst (asm) nat_repr.simps) (simp add: digit_char_eq_zero)
  next
    case False
    with "1.prems" have "hd (nat_repr (n div 10)) = CHR ''0''"
      by (subst (asm) nat_repr.simps) (simp add: nat_repr_nonempty)
    with False "1.IH" have "n div 10 = 0" by simp
    with False show ?thesis by simp
  qed
qed


lemma follow_not_digit: "follow r \<Longrightarrow> takeWhile is_digit r = [] \<and> dropWhile is_digit r = r"
  by (cases r) (auto simp: follow_def is_digit_def)

lemma follow_not_float: "follow r \<Longrightarrow> \<not> float_tail r"
  by (cases r) (auto simp: follow_def float_tail_def)

lemma match_int_nat_repr:
  assumes "follow r"
  shows "match_int (nat_repr n @ r) = Some (nat_repr n, r)"
proof (cases "nat_repr n")
  case Nil
  then show ?thesis by (simp add: nat_repr_nonempty)
next
  case (Cons c cs)
  have dig: "\<And>x. x \<in> set (c # cs) \<Longrightarrow> is_digit x"
    using nat_repr_digits [of _ n] Cons by simp
  show ?thesis
  proof (cases "c = CHR ''0''")
    case True
    with Cons have "n = 0" using hd_nat_repr_zero [of n] by simp
    moreover have "nat_repr 0 = ''0''" by code_simp
    ultimately have "nat_repr n = ''0''" by simp
    then show ?thesis by (simp add: match_int_def)
  next
    case False
    have "takeWhile is_digit (cs @ r) = cs" "dropWhile is_digit (cs @ r) = r"
      using dig follow_not_digit [OF assms] by (simp_all add: takeWhile_append2 dropWhile_append2)
    with False dig Cons show ?thesis by (simp add: match_int_def)
  qed
qed

lemma nat_repr_hd_not_minus: "hd (nat_repr n) \<noteq> CHR ''-''"
proof -
  have "is_digit (hd (nat_repr n))"
    using nat_repr_digits [of "hd (nat_repr n)" n] nat_repr_nonempty [of n] by simp
  then show ?thesis by (auto simp: is_digit_def)
qed

lemma parse_number_int_repr:
  assumes "follow r"
  shows "parse_number (int_repr i @ r) = Some (PyInt i, r)"
proof (cases "i < 0")
  case True
  then show ?thesis
    using match_int_nat_repr [OF assms, of "nat (- i)"] follow_not_float [OF assms]
    by (simp add: parse_number_def int_repr_def digits_val_nat_repr)
next
  case False
  obtain c cs where cs: "nat_repr (nat i) = c # cs"
    using nat_repr_nonempty [of "nat i"] by (cases "nat_repr (nat i)") auto
  then have "c \<noteq> CHR ''-''" using nat_repr_hd_not_minus [of "nat i"] by simp
  with False cs show ?thesis
    using match_int_nat_repr [OF assms, of "nat i"] follow_not_float [OF assms]
      digits_val_nat_repr [of "nat i"]
    by (simp add: parse_number_def int_repr_def)
qed

section \<open>Strings are read back\<close>

lemma hex_val_hexdigit: "d < 16 \<Longrightarrow> hex_val (hexdigit d) = Some d"
  by (simp add: hex_val_def hexdigit_def Let_def)

lemma hex4_val_byte:
  assumes "n < 256"
  shows "hex4_val (hexdigit (n div 4096 mod 16)) (hexdigit (n div 256 mod 16))
           (hexdigit (n div 16 mod 16)) (hexdigit (n mod 16)) = Some n"
proof -
  from assms have "n div 4096 = 0" "n div 256 = 0" "n div 16 < 16" by simp_all
  then show ?thesis
    by (simp add: hex4_val_def hex_val_hexdigit)
qed

lemma scanstring_escape_char:
  "scanstring (escape_char c @ s) =
     (case scanstring s of None \<Rightarrow> None | Some (t, r) \<Rightarrow> Some (c # t, r))"
proof -
  have lt: "(of_char c :: nat) < 256" by simp
  consider (short) "c = CHR 0x5C \<or> c = CHR 0x22 \<or> c = CHR 0x08 \<or> c = CHR 0x0C \<or> c = CHR 0x0A
                     \<or> c = CHR 0x0D \<or> c = CHR 0x09"
    | (plain) "c \<noteq> CHR 0x5C" "c \<noteq> CHR 0x22" "32 \<le> (of_char c :: nat)" "(of_char c :: nat) \<le> 126"
    | (uni) "c \<noteq> CHR 0x5C" "c \<noteq> CHR 0x22" "c \<noteq> CHR 0x08" "c \<noteq> CHR 0x0C" "c \<noteq> CHR 0x0A"
            "c \<noteq> CHR 0x0D" "c \<noteq> CHR 0x09" "\<not> (32 \<le> (of_char c :: nat) \<and> (of_char c :: nat) \<le> 126)"
    by (cases "32 \<le> (of_char c :: nat) \<and> (of_char c :: nat) \<le> 126") auto
  then show ?thesis
  proof cases
    case short
    then show ?thesis
      by (auto simp: escape_char_def unescape_def)
  next
    case plain
    then have "escape_char c = [c]"
      by (auto simp: escape_char_def)
    with plain show ?thesis by simp
  next
    case uni
    then have "escape_char c = CHR 0x5C # u_hex4 (of_char c)"
      by (simp add: escape_char_def)
    then show ?thesis
      using hex4_val_byte [OF lt] by (simp add: u_hex4_def split: option.splits)
  qed
qed

lemma scanstring_escaped:
  "scanstring (concat (map escape_char s) @ CHR 0x22 # r) = Some (s, r)"
  by (induction s) (simp_all add: scanstring_escape_char del: scanstring.simps, simp)

lemma scanstring_encode:
  "scanstring (tl (encode_basestring_ascii s) @ r) = Some (s, r)"
  using scanstring_escaped [of s r] by (simp add: encode_basestring_ascii_def)

lemma py_dict_aux:
  "distinct (map fst (d @ ps)) \<Longrightarrow>
     foldl (\<lambda>d kv. AList.update (fst kv) (snd kv) d) d ps = d @ ps"
proof (induction ps arbitrary: d)
  case Nil
  then show ?case by simp
next
  case (Cons p ps)
  have "AList.update (fst p) (snd p) d = d @ [p]"
    using Cons.prems by (induction d) auto
  with Cons.IH [of "d @ [p]"] Cons.prems show ?case by simp
qed

lemma py_dict_distinct: "distinct (map fst ps) \<Longrightarrow> py_dict ps = ps"
  using py_dict_aux [of "[]" ps] by (simp add: py_dict_def)

section \<open>How serialized text begins\<close>


lemma value_start_append: "value_start t \<Longrightarrow> value_start (t @ r)"
  by (cases t) (simp_all add: value_start_def)

lemma value_start_skip_ws: "value_start t \<Longrightarrow> skip_ws t = t"
  by (cases t) (simp_all add: value_start_def skip_ws_def)

lemma value_start_nonempty: "value_start t \<Longrightarrow> t \<noteq> []"
  by (auto simp: value_start_def)

lemma int_repr_hd: "\<exists>c cs. int_repr i = c # cs \<and> (c = CHR ''-'' \<or> is_digit c)"
proof (cases "i < 0")
  case True
  then show ?thesis by (simp add: int_repr_def)
next
  case False
  obtain c cs where "nat_repr (nat i) = c # cs"
    using nat_repr_nonempty [of "nat i"] by (cases "nat_repr (nat i)") auto
  moreover from this have "is_digit c" using nat_repr_digits [of c "nat i"] by simp
  ultimately show ?thesis using False by (simp add: int_repr_def)
qed

lemma scan_once_number:
  assumes "c = CHR ''-'' \<or> is_digit c"
  shows "scan_once (Suc n) (c # s) = parse_number (c # s)"
proof -
  from assms have "c \<noteq> CHR 0x22" "c \<noteq> CHR ''{''" "c \<noteq> CHR ''[''"
    "c \<noteq> CHR ''n''" "c \<noteq> CHR ''t''" "c \<noteq> CHR ''f''"
    by (auto simp: is_digit_def)
  then show ?thesis by simp
qed

lemma encode_basestring_ascii_Cons:
  "encode_basestring_ascii s = CHR 0x22 # tl (encode_basestring_ascii s)"
  by (simp add: encode_basestring_ascii_def)

lemma json_dumps_start: "json_dumps v = Inr t \<Longrightarrow> value_start t"
proof (cases v)
  case (PyInt i)
  assume "json_dumps v = Inr t"
  with PyInt int_repr_hd [of i] show ?thesis
    by (auto simp: value_start_def is_ws_def is_digit_def)
qed (auto simp: value_start_def is_ws_def encode_basestring_ascii_def split: sum.splits)

lemma dumps_list_start: "dumps_list xs = Inr t \<Longrightarrow> xs \<noteq> [] \<Longrightarrow> value_start t"
proof -
  assume d: "dumps_list xs = Inr t" and "xs \<noteq> []"
  then obtain x xs' where xs: "xs = x # xs'" by (cases xs) auto
  show ?thesis
  proof (cases xs')
    case Nil
    with d xs show ?thesis by (simp add: json_dumps_start)
  next
    case (Cons y ys)
    with d xs obtain s t' where "json_dumps x = Inr s" "t = s @ '', '' @ t'"
      by (auto split: sum.splits simp del: json_dumps.simps)
    then show ?thesis
      using json_dumps_start [of x s] by (simp add: value_start_append)
  qed
qed

lemma dumps_items_start:
  "dumps_items kvs = Inr t \<Longrightarrow> kvs \<noteq> [] \<Longrightarrow> \<exists>t'. t = CHR 0x22 # t'"
proof -
  assume d: "dumps_items kvs = Inr t" and "kvs \<noteq> []"
  then obtain kv kvs' where kvs: "kvs = kv # kvs'" by (cases kvs) auto
  show ?thesis
  proof (cases kvs')
    case Nil
    with d kvs show ?thesis
      by (auto split: sum.splits simp: encode_basestring_ascii_def simp del: json_dumps.simps)
  next
    case (Cons kv' kvs'')
    with d kvs show ?thesis
      by (auto split: sum.splits simp: encode_basestring_ascii_def simp del: json_dumps.simps)
  qed
qed

section \<open>One step of the parser\<close>

lemma follow_simps [simp]:
  "follow []" "follow (CHR '','' # r)" "follow (CHR '']'' # r)" "follow (CHR ''}'' # r)"
  by (simp_all add: follow_def)

lemma skip_ws_simps [simp]:
  "skip_ws (CHR '','' # r) = CHR '','' # r"
  "skip_ws (CHR '']'' # r) = CHR '']'' # r"
  "skip_ws (CHR ''}'' # r) = CHR ''}'' # r"
  "skip_ws (CHR '':'' # r) = CHR '':'' # r"
  "skip_ws (CHR '' '' # r) = skip_ws r"
  "skip_ws [] = []"
  by (simp_all add: skip_ws_def is_ws_def)

lemma scan_once_array:
  assumes "value_start s" "array_values n s = Some (vs, r)"
  shows "scan_once (Suc n) (CHR ''['' # s) = Some (PyList vs, r)"
proof -
  from assms(1) obtain d s' where s: "s = d # s'" "d \<noteq> CHR '']''"
    by (cases s) (auto simp: value_start_def)
  with assms show ?thesis
    using value_start_skip_ws [OF assms(1)] by simp
qed

lemma scan_once_object:
  assumes "object_pairs n (CHR 0x22 # s) = Some (ps, r)"
  shows "scan_once (Suc n) (CHR ''{'' # CHR 0x22 # s) = Some (PyDict (py_dict ps), r)"
proof -
  have "skip_ws (CHR 0x22 # s) = CHR 0x22 # s" by (simp add: skip_ws_def is_ws_def)
  with assms show ?thesis by simp
qed

lemma array_values_last:
  assumes "scan_once n s = Some (v, CHR '']'' # r)"
  shows "array_values (Suc n) s = Some ([v], r)"
  using assms by simp

lemma array_values_more:
  assumes "scan_once n s = Some (v, CHR '','' # CHR '' '' # s')" "value_start s'"
    "array_values n s' = Some (vs, r)"
  shows "array_values (Suc n) s = Some (v # vs, r)"
  using assms value_start_skip_ws [OF assms(2)] by simp

lemma object_pairs_last:
  assumes "value_start s" "scan_once n s = Some (v, CHR ''}'' # r)"
  shows "object_pairs (Suc n) (encode_basestring_ascii k @ CHR '':'' # CHR '' '' # s) = Some ([(k, v)], r)"
proof -
  obtain e where e: "encode_basestring_ascii k = CHR 0x22 # e"
    and sc: "scanstring (e @ CHR '':'' # CHR '' '' # s) = Some (k, CHR '':'' # CHR '' '' # s)"
    using scanstring_encode [of k "CHR '':'' # CHR '' '' # s"]
    by (simp add: encode_basestring_ascii_def)
  show ?thesis
    using assms value_start_skip_ws [OF assms(1)] sc
    by (simp add: e del: scanstring.simps)
qed

lemma object_pairs_more:
  assumes "value_start s" "scan_once n s = Some (v, CHR '','' # CHR '' '' # s')"
    "skip_ws s' = s'" "object_pairs n s' = Some (ps, r)"
  shows "object_pairs (Suc n) (encode_basestring_ascii k @ CHR '':'' # CHR '' '' # s) = Some ((k, v) # ps, r)"
proof -
  obtain e where e: "encode_basestring_ascii k = CHR 0x22 # e"
    and sc: "scanstring (e @ CHR '':'' # CHR '' '' # s) = Some (k, CHR '':'' # CHR '' '' # s)"
    using scanstring_encode [of k "CHR '':'' # CHR '' '' # s"]
    by (simp add: encode_basestring_ascii_def)
  show ?thesis
    using assms value_start_skip_ws [OF assms(1)] sc
    by (simp add: e del: scanstring.simps)
qed

section \<open>\<^verbatim>\<open>json.loads\<close> inverts \<^verbatim>\<open>json.dumps\<close>\<close>

lemma scan_once_json_dumps:
  "json_dumps v = Inr t \<Longrightarrow> wf_pyval v \<Longrightarrow> length t \<le> n \<Longrightarrow> follow r \<Longrightarrow>
     scan_once n (t @ r) = Some (v, r)"
  and array_values_dumps_list:
  "dumps_list xs = Inr t \<Longrightarrow> xs \<noteq> [] \<Longrightarrow> wf_list xs \<Longrightarrow> length t < n \<Longrightarrow>
     array_values n (t @ CHR '']'' # r) = Some (xs, r)"
  and object_pairs_dumps_items:
  "dumps_items kvs = Inr t \<Longrightarrow> kvs \<noteq> [] \<Longrightarrow> wf_items kvs \<Longrightarrow> length t < n \<Longrightarrow>
     object_pairs n (t @ CHR ''}'' # r) = Some (kvs, r)"
proof (induction v and xs and kvs arbitrary: t n r and t n r and t n r
       rule: json_dumps_dumps_list_dumps_items.induct)
  case 1
  then have t: "t = ''null''" by auto
  with 1 obtain m where "n = Suc m" by (cases n) auto
  with t show ?case by simp
next
  case (2 b)
  then have t: "t = (if b then ''true'' else ''false'')" by auto
  with 2 obtain m where "n = Suc m" by (cases n) (auto split: if_splits)
  with t show ?case by simp
next
  case (3 i)
  obtain c cs where c: "int_repr i = c # cs" "c = CHR ''-'' \<or> is_digit c"
    using int_repr_hd [of i] by blast
  from 3 c obtain m where n: "n = Suc m" by (cases n) auto
  have "scan_once (Suc m) (c # (cs @ r)) = parse_number (c # (cs @ r))"
    using c(2) by (rule scan_once_number)
  also have "\<dots> = Some (PyInt i, r)"
    using parse_number_int_repr [OF \<open>follow r\<close>, of i] c(1) by simp
  finally show ?case using 3 c n by auto
next
  case (4 s)
  then obtain m where "n = Suc m" by (cases n) (auto simp: encode_basestring_ascii_def)
  with 4 show ?case
    using scanstring_escaped [of s r]
    by (auto simp: encode_basestring_ascii_def simp del: scanstring.simps)
next
  case (5 xs)
  show ?case
  proof (cases "xs = []")
    case True
    with 5 obtain m where "n = Suc m" by (cases n) auto
    with 5 True show ?thesis by auto
  next
    case False
    from "5.prems" obtain u where u: "dumps_list xs = Inr u" "t = CHR ''['' # u @ '']''"
      by (auto split: sum.splits)
    with "5.prems" obtain m where n: "n = Suc m" "length u < m" by (cases n) auto
    have "array_values m (u @ CHR '']'' # r) = Some (xs, r)"
      using "5.IH" [OF u(1) False _ n(2)] "5.prems" by simp
    moreover have "value_start (u @ CHR '']'' # r)"
      using dumps_list_start [OF u(1) False] by (rule value_start_append)
    ultimately have "scan_once (Suc m) (CHR ''['' # u @ CHR '']'' # r) = Some (PyList xs, r)"
      by (rule scan_once_array [rotated])
    with u n show ?thesis by simp
  qed
next
  case (6 kvs)
  show ?case
  proof (cases "kvs = []")
    case True
    with 6 obtain m where "n = Suc m" by (cases n) auto
    with 6 True show ?thesis by auto
  next
    case False
    from "6.prems" obtain u where u: "dumps_items kvs = Inr u" "t = CHR ''{'' # u @ ''}''"
      by (auto split: sum.splits)
    with "6.prems" obtain m where n: "n = Suc m" "length u < m" by (cases n) auto
    obtain u' where u': "u = CHR 0x22 # u'"
      using dumps_items_start [OF u(1) False] by blast
    have "object_pairs m (u @ CHR ''}'' # r) = Some (kvs, r)"
      using "6.IH" [OF u(1) False _ n(2)] "6.prems" by simp
    then have "scan_once (Suc m) (CHR ''{'' # CHR 0x22 # u' @ CHR ''}'' # r)
                 = Some (PyDict (py_dict kvs), r)"
      using scan_once_object [of m "u' @ CHR ''}'' # r" kvs r] by (simp add: u')
    moreover have "py_dict kvs = kvs"
      using "6.prems" by (simp add: py_dict_distinct)
    ultimately show ?thesis using u n u' by simp
  qed
next
  case (7 r)
  then show ?case by simp
next
  case 8
  then show ?case by simp
next
  case (9 x)
  then obtain m where n: "n = Suc m" "length t \<le> m" by (cases n) auto
  have "scan_once m (t @ CHR '']'' # r) = Some (x, CHR '']'' # r)"
    using "9.IH" [of t m "CHR '']'' # r"] "9.prems" n by simp
  then show ?case unfolding n by (rule array_values_last)
next
  case (10 x y ys)
  from "10.prems" obtain s u where su: "json_dumps x = Inr s" "dumps_list (y # ys) = Inr u"
    "t = s @ '', '' @ u"
    by (auto split: sum.splits simp del: json_dumps.simps)
  have s1: "s \<noteq> []" using json_dumps_start [OF su(1)] by (rule value_start_nonempty)
  with "10.prems" su obtain m where n: "n = Suc m" "length s \<le> m" "length u < m"
    by (cases n) (auto simp: Suc_le_eq)
  have "scan_once m (s @ CHR '','' # CHR '' '' # u @ CHR '']'' # r)
          = Some (x, CHR '','' # CHR '' '' # u @ CHR '']'' # r)"
    using "10.IH"(1) [OF su(1) _ n(2), of "CHR '','' # CHR '' '' # u @ CHR '']'' # r"] "10.prems"
    by simp
  moreover have "value_start (u @ CHR '']'' # r)"
    using dumps_list_start [OF su(2)] by (simp add: value_start_append)
  moreover have "array_values m (u @ CHR '']'' # r) = Some (y # ys, r)"
    using "10.IH"(2) [OF su(1) su(2) _ _ n(3), of r] "10.prems" by simp
  ultimately have "array_values (Suc m) (s @ CHR '','' # CHR '' '' # u @ CHR '']'' # r)
                     = Some (x # y # ys, r)"
    by (rule array_values_more)
  then show ?case using su n by simp
next
  case 11
  then show ?case by simp
next
  case (12 kv)
  from "12.prems" obtain s where s: "json_dumps (snd kv) = Inr s"
    "t = encode_basestring_ascii (fst kv) @ '': '' @ s"
    by (auto split: sum.splits simp del: json_dumps.simps)
  with "12.prems" obtain m where n: "n = Suc m" "length s \<le> m" by (cases n) auto
  have "scan_once m (s @ CHR ''}'' # r) = Some (snd kv, CHR ''}'' # r)"
    using "12.IH" [OF s(1) _ n(2), of "CHR ''}'' # r"] "12.prems" by simp
  moreover have "value_start (s @ CHR ''}'' # r)"
    using json_dumps_start [OF s(1)] by (rule value_start_append)
  ultimately have "object_pairs (Suc m)
      (encode_basestring_ascii (fst kv) @ CHR '':'' # CHR '' '' # s @ CHR ''}'' # r)
        = Some ([(fst kv, snd kv)], r)"
    by (rule object_pairs_last [rotated])
  then show ?case using s n by simp
next
  case (13 kv kv' kvs)
  from "13.prems" obtain s u where su: "json_dumps (snd kv) = Inr s"
    "dumps_items (kv' # kvs) = Inr u"
    "t = encode_basestring_ascii (fst kv) @ '': '' @ s @ '', '' @ u"
    by (auto split: sum.splits simp del: json_dumps.simps)
  with "13.prems" obtain m where n: "n = Suc m" "length s \<le> m" "length u < m"
    by (cases n) (auto simp: encode_basestring_ascii_def)
  obtain u' where u': "u = CHR 0x22 # u'"
    using dumps_items_start [OF su(2)] by blast
  have "value_start (s @ CHR '','' # CHR '' '' # u @ CHR ''}'' # r)"
    using json_dumps_start [OF su(1)] by (rule value_start_append)
  moreover have "scan_once m (s @ CHR '','' # CHR '' '' # u @ CHR ''}'' # r)
          = Some (snd kv, CHR '','' # CHR '' '' # u @ CHR ''}'' # r)"
    using "13.IH"(1) [OF su(1) _ n(2), of "CHR '','' # CHR '' '' # u @ CHR ''}'' # r"] "13.prems"
    by simp
  moreover have "skip_ws (u @ CHR ''}'' # r) = u @ CHR ''}'' # r"
    by (simp add: u' skip_ws_def is_ws_def)
  moreover have "object_pairs m (u @ CHR ''}'' # r) = Some (kv' # kvs, r)"
    using "13.IH"(2) [OF su(1) su(2) _ _ n(3), of r] "13.prems" by simp
  ultimately have "object_pairs (Suc m)
      (encode_basestring_ascii (fst kv) @ CHR '':'' # CHR '' '' # s @ CHR '','' # CHR '' '' # u @ CHR ''}'' # r)
        = Some ((fst kv, snd kv) # kv' # kvs, r)"
    by (rule object_pairs_more)
  then show ?case using su n by simp
qed

lemma json_loads_json_dumps:
  assumes "json_dumps v = Inr t" "wf_pyval v"
  shows "json_loads t = Some v"
proof -
  have "skip_ws t = t"
    using json_dumps_start [OF assms(1)] by (rule value_start_skip_ws)
  moreover have "scan_once (length t) (t @ []) = Some (v, [])"
    using assms by (intro scan_once_json_dumps) simp_all
  ultimately show ?thesis by (simp add: json_loads_def)
qed

section \<open>What a returning call computes\<close>

lemma json_dumps_response_dict:
  "\<exists>rs. json_dumps (response_dict r) = Inr rs"
  by (simp add: response_dict_def)

lemma lambda_handler_returns:
  assumes "fst (lambda_handler environ event context lg) = Inr r"
  shows "\<exists>kvs ev fv b rs.
           event = PyDict kvs \<and> json_dumps event = Inr ev \<and>
           context_function_version context = Inr fv \<and>
           json_dumps (PyDict [(''message'', PyStr (''Hello, '' @ py_str (case map_of kvs ''name'' of None \<Rightarrow> PyStr ''World'' | Some v \<Rightarrow> v) @ ''!'')),
                               (''stage'', PyStr (environ_get environ ''STAGE'' ''development'')),
                               (''log_level'', PyStr (environ_get environ ''LOG_LEVEL'' ''INFO'')),
                               (''function_version'', fv)]) = Inr b \<and>
           r = \<lparr>statusCode = 200, body = b\<rparr> \<and>
           json_dumps (response_dict r) = Inr rs \<and>
           snd (lambda_handler environ event context lg) =
             logger_info (''Returning response: '' @ rs) (logger_info (''Received event: '' @ ev) lg)"
proof (cases event)
  case (PyDict kvs)
  with assms show ?thesis
    unfolding lambda_handler_def Let_def
    by (auto split: sum.splits simp del: json_dumps.simps)
qed (use assms in \<open>auto simp add: lambda_handler_def Let_def split: sum.splits simp del: json_dumps.simps\<close>)

lemma context_function_version_wf:
  "wf_context context \<Longrightarrow> context_function_version context = Inr fv \<Longrightarrow> wf_pyval fv"
  by (auto simp: wf_context_def context_function_version_def split: option.splits if_splits)

lemma lambda_handler_body:
  assumes "fst (lambda_handler environ event context lg) = Inr r" "wf_context context"
  shows "\<exists>kvs fv.
           event = PyDict kvs \<and> context_function_version context = Inr fv \<and>
           json_loads (body r) =
             Some (PyDict [(''message'', PyStr (''Hello, '' @ py_str (case map_of kvs ''name'' of None \<Rightarrow> PyStr ''World'' | Some v \<Rightarrow> v) @ ''!'')),
                           (''stage'', PyStr (environ_get environ ''STAGE'' ''development'')),
                           (''log_level'', PyStr (environ_get environ ''LOG_LEVEL'' ''INFO'')),
                           (''function_version'', fv)])"
proof -
  from lambda_handler_returns [OF assms(1)] obtain kvs fv b where
    ev: "event = PyDict kvs" and fv: "context_function_version context = Inr fv" and
    b: "json_dumps (PyDict [(''message'', PyStr (''Hello, '' @ py_str (case map_of kvs ''name'' of None \<Rightarrow> PyStr ''World'' | Some v \<Rightarrow> v) @ ''!'')),
                               (''stage'', PyStr (environ_get environ ''STAGE'' ''development'')),
                               (''log_level'', PyStr (environ_get environ ''LOG_LEVEL'' ''INFO'')),
                               (''function_version'', fv)]) = Inr b" and
    r: "r = \<lparr>statusCode = 200, body = b\<rparr>"
    by blast
  have "wf_pyval fv" using assms(2) fv by (rule context_function_version_wf)
  then have "wf_pyval (PyDict [(''message'', PyStr (''Hello, '' @ py_str (case map_of kvs ''name'' of None \<Rightarrow> PyStr ''World'' | Some v \<Rightarrow> v) @ ''!'')),
                               (''stage'', PyStr (environ_get environ ''STAGE'' ''development'')),
                               (''log_level'', PyStr (environ_get environ ''LOG_LEVEL'' ''INFO'')),
                               (''function_version'', fv)])"
    by simp
  with b have "json_loads b = Some (PyDict [(''message'', PyStr (''Hello, '' @ py_str (case map_of kvs ''name'' of None \<Rightarrow> PyStr ''World'' | Some v \<Rightarrow> v) @ ''!'')),
                               (''stage'', PyStr (environ_get environ ''STAGE'' ''development'')),
                               (''log_level'', PyStr (environ_get environ ''LOG_LEVEL'' ''INFO'')),
                               (''function_version'', fv)])"
    by (rule json_loads_json_dumps)
  with ev fv r show ?thesis by simp
qed

text \<open>
  The handler returns for every event mapping and every context that \<^verbatim>\<open>json.dumps\<close>
  accepts. A call that raises after the event was serialized has logged the first
  record and nothing else; when serializing the event raises, nothing is logged.
\<close>

lemma lambda_handler_returns_on_json:
  assumes "json_dumps (PyDict kvs) = Inr ev" "context_function_version context = Inr fv"
    "json_dumps fv = Inr s"
  shows "\<exists>r. fst (lambda_handler environ (PyDict kvs) context lg) = Inr r"
proof -
  have "\<exists>b. json_dumps (PyDict [(''message'', PyStr (''Hello, '' @ py_str (case map_of kvs ''name'' of None \<Rightarrow> PyStr ''World'' | Some v \<Rightarrow> v) @ ''!'')),
                               (''stage'', PyStr (environ_get environ ''STAGE'' ''development'')),
                               (''log_level'', PyStr (environ_get environ ''LOG_LEVEL'' ''INFO'')),
                               (''function_version'', fv)]) = Inr b"
    using assms(3) by simp
  then obtain b where b: "json_dumps (PyDict [(''message'', PyStr (''Hello, '' @ py_str (case map_of kvs ''name'' of None \<Rightarrow> PyStr ''World'' | Some v \<Rightarrow> v) @ ''!'')),
                               (''stage'', PyStr (environ_get environ ''STAGE'' ''development'')),
                               (''log_level'', PyStr (environ_get environ ''LOG_LEVEL'' ''INFO'')),
                               (''function_version'', fv)]) = Inr b" ..
  obtain rs where rs: "json_dumps (response_dict \<lparr>statusCode = 200, body = b\<rparr>) = Inr rs"
    using json_dumps_response_dict by blast
  show ?thesis
    using assms(1,2) b rs
    by (simp add: lambda_handler_def Let_def del: json_dumps.simps)
qed

lemma json_dumps_response_dict_Inl: "json_dumps (response_dict r) \<noteq> Inl e"
  by (simp add: response_dict_def)

lemma lambda_handler_raises_after_event:
  assumes "json_dumps event = Inr ev" "fst (lambda_handler environ event context lg) = Inl e"
  shows "snd (lambda_handler environ event context lg) = lg @ [(INFO, ''Received event: '' @ ev)]"
  using assms
  by (auto simp: lambda_handler_def Let_def logger_info_def logger_level_def
             json_dumps_response_dict_Inl
           split: sum.splits simp del: json_dumps.simps)

lemma lambda_handler_raises_at_event:
  assumes "json_dumps event = Inl e"
  shows "lambda_handler environ event context lg = (Inl e, lg)"
  using assms by (simp add: lambda_handler_def del: json_dumps.simps)

lemma lambda_handler_returns_field:
  assumes "json_dumps (PyDict kvs) = Inr ev" "context_function_version context = Inr fv"
    "json_dumps fv = Inr s" "wf_context context"
  shows "\<exists>r. fst (lambda_handler environ (PyDict kvs) context lg) = Inr r \<and>
             body_field r ''function_version'' = Some fv"
proof -
  obtain r where r: "fst (lambda_handler environ (PyDict kvs) context lg) = Inr r"
    using lambda_handler_returns_on_json [OF assms(1,2,3)] by blast
  from lambda_handler_body [OF r assms(4)] assms(2)
  have "body_field r ''function_version'' = Some fv"
    by (auto simp: body_field_def)
  with r show ?thesis by blast
qed

lemma fst_lambda_handler_log:
  "fst (lambda_handler environ event context lg) = fst (lambda_handler environ event context [])"
  by (simp add: lambda_handler_def Let_def split: sum.splits del: json_dumps.simps)

lemmas handler_defs =
  lambda_handler_def Let_def environ_get_def context_function_version_def response_dict_def

section \<open>The claims\<close>

text \<open>
  In the theorems below a call \<^emph>\<open>returns\<close> \<open>r\<close> when the first component of
  \<open>lambda_handler environ event context lg\<close> is \<open>Inr r\<close>. Where a theorem reads the
  body through \<open>json_loads\<close> it assumes \<open>wf_context\<close>: the attribute of the context
  is a Python value, whose mappings have distinct keys.
\<close>



text \<open>
  \<^bold>\<open>C2.\<close> For every environment, event, context and log, a returned response has the status
  code 200: no branch of the handler builds another one.
\<close>

theorem statusCode_always_200:
  "fst (lambda_handler environ event context lg) = Inr r \<Longrightarrow> statusCode r = 200"
  by (auto dest: lambda_handler_returns)

text \<open>An instance of C2: the empty event.\<close>

theorem statusCode_always_200_witness:
  "\<exists>r. fst (lambda_handler Map.empty (PyDict []) None []) = Inr r \<and> statusCode r = 200"
proof -
  obtain r where h: "fst (lambda_handler Map.empty (PyDict []) None []) = Inr r"
    by (simp add: handler_defs)
  from statusCode_always_200 [OF h] h show ?thesis by blast
qed

text \<open>
  \<^bold>\<open>C3.\<close> The \<^verbatim>\<open>stage\<close> and \<^verbatim>\<open>log_level\<close> of the returned body are the values of
  \<^verbatim>\<open>STAGE\<close> and \<^verbatim>\<open>LOG_LEVEL\<close> in the environment of the call, and
  \<^verbatim>\<open>development\<close> and \<^verbatim>\<open>INFO\<close> where the variable is not set.
\<close>

theorem stage_and_log_level_from_environ:
  assumes "wf_context context" "fst (lambda_handler environ event context lg) = Inr r"
  shows "body_field r ''stage'' =
           Some (PyStr (case environ ''STAGE'' of None \<Rightarrow> ''development'' | Some v \<Rightarrow> v)) \<and>
         body_field r ''log_level'' =
           Some (PyStr (case environ ''LOG_LEVEL'' of None \<Rightarrow> ''INFO'' | Some v \<Rightarrow> v))"
  using lambda_handler_body [OF assms(2,1)] by (auto simp: body_field_def environ_get_def)

text \<open>An instance of C3: \<^verbatim>\<open>STAGE=production\<close>, and \<^verbatim>\<open>LOG_LEVEL\<close> not set.\<close>

theorem stage_and_log_level_from_environ_witness:
  "wf_context None \<and>
   (\<exists>r. fst (lambda_handler [''STAGE'' \<mapsto> ''production''] (PyDict []) None []) = Inr r \<and>
        body_field r ''stage'' = Some (PyStr ''production'') \<and>
        body_field r ''log_level'' = Some (PyStr ''INFO''))"
proof -
  have h1: "wf_context None" by (simp add: wf_context_def)
  obtain r where h2: "fst (lambda_handler [''STAGE'' \<mapsto> ''production''] (PyDict []) None []) = Inr r"
    by (simp add: handler_defs)
  from stage_and_log_level_from_environ [OF h1 h2]
  have "body_field r ''stage'' = Some (PyStr ''production'') \<and>
        body_field r ''log_level'' = Some (PyStr ''INFO'')" by simp
  with h1 h2 show ?thesis by blast
qed

text \<open>
  \<^bold>\<open>C4.\<close> The \<^verbatim>\<open>function_version\<close> of the returned body is the attribute
  \<^verbatim>\<open>function_version\<close> of the context when the context is present and truthy, and
  \<^verbatim>\<open>unknown\<close> otherwise. The first part says so of every response that is returned.
  The other three say that the response is produced: for an event mapping that
  \<^verbatim>\<open>json.dumps\<close> accepts, a call with the context \<^verbatim>\<open>None\<close> returns with
  \<^verbatim>\<open>unknown\<close>, so does a call with a falsy context (whose attribute is not looked
  up), and a call with a truthy context whose attribute \<open>v\<close> is serializable returns
  with \<open>v\<close>.
\<close>

theorem function_version_from_context:
  assumes "wf_context context"
  shows
    "(fst (lambda_handler environ event context lg) = Inr r \<longrightarrow>
        body_field r ''function_version'' =
          (case context of
             None \<Rightarrow> Some (PyStr ''unknown'')
           | Some c \<Rightarrow> if truthy c then function_version c else Some (PyStr ''unknown''))) \<and>
     (json_dumps (PyDict kvs) = Inr ev \<longrightarrow> context = None \<longrightarrow>
        (\<exists>r'. fst (lambda_handler environ (PyDict kvs) context lg) = Inr r' \<and>
              body_field r' ''function_version'' = Some (PyStr ''unknown''))) \<and>
     (json_dumps (PyDict kvs) = Inr ev \<longrightarrow> context = Some c \<longrightarrow> \<not> truthy c \<longrightarrow>
        (\<exists>r'. fst (lambda_handler environ (PyDict kvs) context lg) = Inr r' \<and>
              body_field r' ''function_version'' = Some (PyStr ''unknown''))) \<and>
     (json_dumps (PyDict kvs) = Inr ev \<longrightarrow> context = Some c \<longrightarrow> truthy c \<longrightarrow>
      function_version c = Some v \<longrightarrow> json_dumps v = Inr s \<longrightarrow>
        (\<exists>r'. fst (lambda_handler environ (PyDict kvs) context lg) = Inr r' \<and>
              body_field r' ''function_version'' = Some v))"
proof (intro conjI impI)
  assume "fst (lambda_handler environ event context lg) = Inr r"
  from lambda_handler_body [OF this assms]
  show "body_field r ''function_version'' =
          (case context of
             None \<Rightarrow> Some (PyStr ''unknown'')
           | Some c \<Rightarrow> if truthy c then function_version c else Some (PyStr ''unknown''))"
    by (auto simp: body_field_def context_function_version_def split: option.splits if_splits)
next
  assume ev: "json_dumps (PyDict kvs) = Inr ev" and c: "context = None"
  have "context_function_version context = Inr (PyStr ''unknown'')"
    using c by (simp add: context_function_version_def)
  moreover have "json_dumps (PyStr ''unknown'') = Inr (encode_basestring_ascii ''unknown'')"
    by simp
  ultimately show "\<exists>r'. fst (lambda_handler environ (PyDict kvs) context lg) = Inr r' \<and>
              body_field r' ''function_version'' = Some (PyStr ''unknown'')"
    using assms by (rule lambda_handler_returns_field [OF ev])
next
  assume ev: "json_dumps (PyDict kvs) = Inr ev" and c: "context = Some c" "\<not> truthy c"
  have "context_function_version context = Inr (PyStr ''unknown'')"
    using c by (simp add: context_function_version_def)
  moreover have "json_dumps (PyStr ''unknown'') = Inr (encode_basestring_ascii ''unknown'')"
    by simp
  ultimately show "\<exists>r'. fst (lambda_handler environ (PyDict kvs) context lg) = Inr r' \<and>
              body_field r' ''function_version'' = Some (PyStr ''unknown'')"
    using assms by (rule lambda_handler_returns_field [OF ev])
next
  assume ev: "json_dumps (PyDict kvs) = Inr ev" and c: "context = Some c" "truthy c"
    "function_version c = Some v" and s: "json_dumps v = Inr s"
  have "context_function_version context = Inr v"
    using c by (simp add: context_function_version_def)
  then show "\<exists>r'. fst (lambda_handler environ (PyDict kvs) context lg) = Inr r' \<and>
              body_field r' ''function_version'' = Some v"
    using s assms by (rule lambda_handler_returns_field [OF ev])
qed

text \<open>
  Instances of C4: the first part at the call with the empty event and no context;
  then no context with the event \<^verbatim>\<open>{"id": 7}\<close>, a falsy context without the
  attribute, and a context whose \<^verbatim>\<open>function_version\<close> is \<^verbatim>\<open>"3"\<close>.
\<close>

theorem function_version_from_context_witness:
  "(\<exists>r. fst (lambda_handler Map.empty (PyDict []) None []) = Inr r \<and>
        body_field r ''function_version'' = Some (PyStr ''unknown'')) \<and>
   (\<exists>r. fst (lambda_handler Map.empty (PyDict [(''id'', PyInt 7)]) None []) = Inr r \<and>
        body_field r ''function_version'' = Some (PyStr ''unknown'')) \<and>
   (\<exists>r. fst (lambda_handler Map.empty (PyDict [])
               (Some \<lparr>truthy = False, function_version = None\<rparr>) []) = Inr r \<and>
        body_field r ''function_version'' = Some (PyStr ''unknown'')) \<and>
   (\<exists>r. fst (lambda_handler Map.empty (PyDict [])
               (Some \<lparr>truthy = True, function_version = Some (PyStr ''3'')\<rparr>) []) = Inr r \<and>
        body_field r ''function_version'' = Some (PyStr ''3''))"
proof -
  have ev: "json_dumps (PyDict []) = Inr ''{}''" by simp
  obtain ev7 where ev7: "json_dumps (PyDict [(''id'', PyInt 7)]) = Inr ev7" by simp
  have w1: "wf_context None"
    and w2: "wf_context (Some \<lparr>truthy = False, function_version = None\<rparr>)"
    and w3: "wf_context (Some \<lparr>truthy = True, function_version = Some (PyStr ''3'')\<rparr>)"
    by (simp_all add: wf_context_def)
  have s: "json_dumps (PyStr ''3'') = Inr (encode_basestring_ascii ''3'')" by simp
  obtain r where h: "fst (lambda_handler Map.empty (PyDict []) None []) = Inr r"
    by (simp add: handler_defs)
  note t0 = function_version_from_context [OF w1, of Map.empty "PyDict []" "[]" r]
  note t1 = function_version_from_context [OF w1, of Map.empty _ "[]" _ "[(''id'', PyInt 7)]" ev7]
  note t2 = function_version_from_context [OF w2, of Map.empty _ "[]" _ "[]" "''{}''"
      "\<lparr>truthy = False, function_version = None\<rparr>"]
  note t3 = function_version_from_context [OF w3, of Map.empty _ "[]" _ "[]" "''{}''"
      "\<lparr>truthy = True, function_version = Some (PyStr ''3'')\<rparr>" "PyStr ''3''"
      "encode_basestring_ascii ''3''"]
  have "body_field r ''function_version'' = Some (PyStr ''unknown'')"
    using t0 h by simp
  with h have a: "\<exists>r. fst (lambda_handler Map.empty (PyDict []) None []) = Inr r \<and>
        body_field r ''function_version'' = Some (PyStr ''unknown'')"
    by blast
  have a': "\<exists>r. fst (lambda_handler Map.empty (PyDict [(''id'', PyInt 7)]) None []) = Inr r \<and>
        body_field r ''function_version'' = Some (PyStr ''unknown'')"
    using t1 ev7 by blast
  have b: "\<exists>r. fst (lambda_handler Map.empty (PyDict [])
               (Some \<lparr>truthy = False, function_version = None\<rparr>) []) = Inr r \<and>
        body_field r ''function_version'' = Some (PyStr ''unknown'')"
    using t2 ev by simp
  have c: "\<exists>r. fst (lambda_handler Map.empty (PyDict [])
               (Some \<lparr>truthy = True, function_version = Some (PyStr ''3'')\<rparr>) []) = Inr r \<and>
        body_field r ''function_version'' = Some (PyStr ''3'')"
    using t3 ev s by simp
  from a a' b c show ?thesis by blast
qed

text \<open>
  \<^bold>\<open>C5.\<close> For every event mapping without the key \<^verbatim>\<open>name\<close>, the \<^verbatim>\<open>message\<close> of the
  returned body is \<^verbatim>\<open>Hello, World!\<close>.
\<close>

theorem message_default_World:
  assumes "map_of kvs ''name'' = None" "wf_context context"
    "fst (lambda_handler environ (PyDict kvs) context lg) = Inr r"
  shows "body_field r ''message'' = Some (PyStr ''Hello, World!'')"
  using lambda_handler_body [OF assms(3,2)] assms(1) by (auto simp: body_field_def)

text \<open>An instance of C5: the event \<^verbatim>\<open>{"id": 7}\<close>.\<close>

theorem message_default_World_witness:
  "map_of [(''id'', PyInt 7)] ''name'' = None \<and> wf_context None \<and>
   (\<exists>r. fst (lambda_handler Map.empty (PyDict [(''id'', PyInt 7)]) None []) = Inr r \<and>
        body_field r ''message'' = Some (PyStr ''Hello, World!''))"
proof -
  have h1: "map_of [(''id'', PyInt 7)] ''name'' = None" by simp
  have h2: "wf_context None" by (simp add: wf_context_def)
  obtain r where h3: "fst (lambda_handler Map.empty (PyDict [(''id'', PyInt 7)]) None []) = Inr r"
    by (simp add: handler_defs)
  from message_default_World [OF h1 h2 h3] h1 h2 h3 show ?thesis by blast
qed

text \<open>
  \<^bold>\<open>C6.\<close> The scenario of the specification: the event \<^verbatim>\<open>{"name": "Ada"}\<close>, neither
  \<^verbatim>\<open>LOG_LEVEL\<close> nor \<^verbatim>\<open>STAGE\<close> set, a context with \<^verbatim>\<open>function_version = "3"\<close>.
  The call returns, the status code is 200, and the body parses to the mapping with
  \<^verbatim>\<open>message\<close> \<^verbatim>\<open>Hello, Ada!\<close>, \<^verbatim>\<open>stage\<close> \<^verbatim>\<open>development\<close>, \<^verbatim>\<open>log_level\<close>
  \<^verbatim>\<open>INFO\<close> and \<^verbatim>\<open>function_version\<close> \<^verbatim>\<open>3\<close>, whatever the log held before.
\<close>

theorem scenario_Ada:
  "(case fst (lambda_handler Map.empty (PyDict [(''name'', PyStr ''Ada'')])
                (Some \<lparr>truthy = True, function_version = Some (PyStr ''3'')\<rparr>) lg) of
      Inl e \<Rightarrow> False
    | Inr r \<Rightarrow>
        statusCode r = 200 \<and>
        json_loads (body r) =
          Some (PyDict [(''message'', PyStr ''Hello, Ada!''), (''stage'', PyStr ''development''),
                        (''log_level'', PyStr ''INFO''), (''function_version'', PyStr ''3'')]))"
  by (subst fst_lambda_handler_log) code_simp

text \<open>
  \<^bold>\<open>C7.\<close> The handler recovers from nothing. When serializing the event raises, the
  call ends with that exception and the log is untouched; when the lookup in the event,
  the attribute access on the context or the serialization of the body raises, the call
  ends with that very exception. In each case the outcome is \<open>Inl\<close>: there is no
  response. (Serializing the finished response for the second log line cannot raise,
  see \<open>json_dumps_response_dict\<close>.)
\<close>

theorem failures_propagate:
  "(json_dumps event = Inl e \<longrightarrow> lambda_handler environ event context lg = (Inl e, lg)) \<and>
   (json_dumps event = Inr ev \<longrightarrow> event_get event ''name'' (PyStr ''World'') = Inl e \<longrightarrow>
      fst (lambda_handler environ event context lg) = Inl e) \<and>
   (json_dumps event = Inr ev \<longrightarrow> event_get event ''name'' (PyStr ''World'') = Inr name \<longrightarrow>
    context_function_version context = Inl e \<longrightarrow>
      fst (lambda_handler environ event context lg) = Inl e) \<and>
   (json_dumps event = Inr ev \<longrightarrow> event_get event ''name'' (PyStr ''World'') = Inr name \<longrightarrow>
    context_function_version context = Inr fv \<longrightarrow>
    json_dumps (PyDict [(''message'', PyStr (''Hello, '' @ py_str name @ ''!'')),
                        (''stage'', PyStr (environ_get environ ''STAGE'' ''development'')),
                        (''log_level'', PyStr (environ_get environ ''LOG_LEVEL'' ''INFO'')),
                        (''function_version'', fv)]) = Inl e \<longrightarrow>
      fst (lambda_handler environ event context lg) = Inl e)"
  by (simp add: lambda_handler_def Let_def del: json_dumps.simps)

text \<open>
  Instances of C7, one for each source of failure: an event holding a set, an event
  that is a list, a context without the attribute, and a context whose attribute is a
  mock object.
\<close>

theorem failures_propagate_witness:
  "lambda_handler Map.empty (PyDict [(''data'', PyOpaque ''{1, 2}'')]) None [] = (Inl TypeError, []) \<and>
   fst (lambda_handler Map.empty (PyList []) None []) = Inl AttributeError \<and>
   fst (lambda_handler Map.empty (PyDict [])
          (Some \<lparr>truthy = True, function_version = None\<rparr>) []) = Inl AttributeError \<and>
   fst (lambda_handler Map.empty (PyDict [])
          (Some \<lparr>truthy = True, function_version = Some (PyOpaque ''<Mock>'')\<rparr>) []) = Inl TypeError"
proof -
  have a: "json_dumps (PyDict [(''data'', PyOpaque ''{1, 2}'')]) = Inl TypeError" by simp
  have b: "json_dumps (PyList []) = Inr ''[]''"
    "event_get (PyList []) ''name'' (PyStr ''World'') = Inl AttributeError" by simp_all
  have c: "json_dumps (PyDict []) = Inr ''{}''"
    "event_get (PyDict []) ''name'' (PyStr ''World'') = Inr (PyStr ''World'')"
    "context_function_version (Some \<lparr>truthy = True, function_version = None\<rparr>) = Inl AttributeError"
    by (simp_all add: context_function_version_def)
  have d: "context_function_version (Some \<lparr>truthy = True, function_version = Some (PyOpaque ''<Mock>'')\<rparr>)
             = Inr (PyOpaque ''<Mock>'')"
    "json_dumps (PyDict [(''message'', PyStr (''Hello, '' @ py_str (PyStr ''World'') @ ''!'')),
                        (''stage'', PyStr (environ_get Map.empty ''STAGE'' ''development'')),
                        (''log_level'', PyStr (environ_get Map.empty ''LOG_LEVEL'' ''INFO'')),
                        (''function_version'', PyOpaque ''<Mock>'')]) = Inl TypeError"
    by (simp_all add: context_function_version_def)
  note p = failures_propagate
  from p [of "PyDict [(''data'', PyOpaque ''{1, 2}'')]" TypeError Map.empty None "[]"] a
  have 1: "lambda_handler Map.empty (PyDict [(''data'', PyOpaque ''{1, 2}'')]) None [] = (Inl TypeError, [])"
    by blast
  from p [of "PyList []" AttributeError Map.empty None "[]" "''[]''"] b
  have 2: "fst (lambda_handler Map.empty (PyList []) None []) = Inl AttributeError"
    by blast
  from p [of "PyDict []" AttributeError Map.empty "Some \<lparr>truthy = True, function_version = None\<rparr>" "[]" "''{}''" "PyStr ''World''"] c
  have 3: "fst (lambda_handler Map.empty (PyDict [])
          (Some \<lparr>truthy = True, function_version = None\<rparr>) []) = Inl AttributeError"
    by blast
  from p [of "PyDict []" TypeError Map.empty "Some \<lparr>truthy = True, function_version = Some (PyOpaque ''<Mock>'')\<rparr>" "[]" "''{}''" "PyStr ''World''" "PyOpaque ''<Mock>''"] c(1,2) d
  have 4: "fst (lambda_handler Map.empty (PyDict [])
          (Some \<lparr>truthy = True, function_version = Some (PyOpaque ''<Mock>'')\<rparr>) []) = Inl TypeError"
    by blast
  from 1 2 3 4 show ?thesis by blast
qed

text \<open>
  \<^bold>\<open>C8.\<close> The body of every returned response is the text of a JSON mapping with the keys
  \<^verbatim>\<open>message\<close>, \<^verbatim>\<open>stage\<close>, \<^verbatim>\<open>log_level\<close> and \<^verbatim>\<open>function_version\<close>, in this
  order and no others, the first three with string values.
\<close>

theorem body_is_json_mapping:
  assumes "wf_context context" "fst (lambda_handler environ event context lg) = Inr r"
  shows "\<exists>m s l f. json_loads (body r) =
           Some (PyDict [(''message'', PyStr m), (''stage'', PyStr s), (''log_level'', PyStr l),
                         (''function_version'', f)])"
  using lambda_handler_body [OF assms(2,1)] by blast

text \<open>An instance of C8: the empty event and no context.\<close>

theorem body_is_json_mapping_witness:
  "wf_context None \<and>
   (\<exists>r. fst (lambda_handler Map.empty (PyDict []) None []) = Inr r \<and>
     (\<exists>m s l f. json_loads (body r) =
           Some (PyDict [(''message'', PyStr m), (''stage'', PyStr s), (''log_level'', PyStr l),
                         (''function_version'', f)])))"
proof -
  have h1: "wf_context None" by (simp add: wf_context_def)
  obtain r where h2: "fst (lambda_handler Map.empty (PyDict []) None []) = Inr r"
    by (simp add: handler_defs)
  from body_is_json_mapping [OF h1 h2] h1 h2 show ?thesis by blast
qed

text \<open>
  \<^bold>\<open>C9\<close> says that every call emits exactly two log records. A call that raises does
  not: for the event \<^verbatim>\<open>{"name": "Ada", "tags": {1, 2}}\<close> the first
  \<^verbatim>\<open>json.dumps(event)\<close> raises \<^verbatim>\<open>TypeError\<close> inside the argument of the first
  \<^verbatim>\<open>logger.info\<close>, and the log stays empty.
\<close>

theorem two_log_lines_counterexample:
  "lambda_handler Map.empty (PyDict [(''name'', PyStr ''Ada''), (''tags'', PyOpaque ''{1, 2}'')])
     None [] = (Inl TypeError, [])"
  by (simp add: lambda_handler_def)

text \<open>
  \<^bold>\<open>C9, amended.\<close> Every call that returns emits exactly two records, both at level
  \<^verbatim>\<open>INFO\<close>, in this order: \<^verbatim>\<open>Received event: \<close> with the serialized event, then
  \<^verbatim>\<open>Returning response: \<close> with the serialized response. The first record is
  emitted before the response is computed: a call that raises after the event was
  serialized has emitted exactly that record, and a call in which serializing the
  event raises has emitted none. The log is the only state the handler changes.
\<close>

theorem log_records_in_order:
  "(fst (lambda_handler environ event context lg) = Inr r \<longrightarrow>
      (\<exists>ev rs. json_dumps event = Inr ev \<and> json_dumps (response_dict r) = Inr rs \<and>
         snd (lambda_handler environ event context lg) =
           lg @ [(INFO, ''Received event: '' @ ev), (INFO, ''Returning response: '' @ rs)])) \<and>
   (json_dumps event = Inr ev' \<longrightarrow> fst (lambda_handler environ event context lg) = Inl e \<longrightarrow>
      snd (lambda_handler environ event context lg) = lg @ [(INFO, ''Received event: '' @ ev')]) \<and>
   (json_dumps event = Inl e \<longrightarrow> snd (lambda_handler environ event context lg) = lg)"
proof (intro conjI impI)
  assume "fst (lambda_handler environ event context lg) = Inr r"
  from lambda_handler_returns [OF this]
  show "\<exists>ev rs. json_dumps event = Inr ev \<and> json_dumps (response_dict r) = Inr rs \<and>
         snd (lambda_handler environ event context lg) =
           lg @ [(INFO, ''Received event: '' @ ev), (INFO, ''Returning response: '' @ rs)]"
    by (auto simp: logger_info_def logger_level_def simp del: json_dumps.simps)
next
  assume "json_dumps event = Inr ev'" "fst (lambda_handler environ event context lg) = Inl e"
  then show "snd (lambda_handler environ event context lg) = lg @ [(INFO, ''Received event: '' @ ev')]"
    by (rule lambda_handler_raises_after_event)
next
  assume "json_dumps event = Inl e"
  then show "snd (lambda_handler environ event context lg) = lg"
    by (simp add: lambda_handler_raises_at_event)
qed

text \<open>
  Instances of the amended C9: the empty event returns with two records; the event
  \<^verbatim>\<open>[]\<close> is logged and then \<^verbatim>\<open>event.get\<close> raises; an event holding a set is not
  serializable and nothing is logged.
\<close>

theorem log_records_in_order_witness:
  "(\<exists>r ev rs. fst (lambda_handler Map.empty (PyDict []) None []) = Inr r \<and>
      json_dumps (PyDict []) = Inr ev \<and> json_dumps (response_dict r) = Inr rs \<and>
      snd (lambda_handler Map.empty (PyDict []) None []) =
        [(INFO, ''Received event: '' @ ev), (INFO, ''Returning response: '' @ rs)]) \<and>
   (fst (lambda_handler Map.empty (PyList []) None []) = Inl AttributeError \<and>
    snd (lambda_handler Map.empty (PyList []) None []) = [(INFO, ''Received event: []'')]) \<and>
   (json_dumps (PyDict [(''tags'', PyOpaque ''{1, 2}'')]) = Inl TypeError \<and>
    snd (lambda_handler Map.empty (PyDict [(''tags'', PyOpaque ''{1, 2}'')]) None []) = [])"
proof -
  obtain r where h: "fst (lambda_handler Map.empty (PyDict []) None []) = Inr r"
    by (simp add: handler_defs)
  have a: "\<exists>r ev rs. fst (lambda_handler Map.empty (PyDict []) None []) = Inr r \<and>
      json_dumps (PyDict []) = Inr ev \<and> json_dumps (response_dict r) = Inr rs \<and>
      snd (lambda_handler Map.empty (PyDict []) None []) =
        [(INFO, ''Received event: '' @ ev), (INFO, ''Returning response: '' @ rs)]"
    using log_records_in_order [of Map.empty "PyDict []" None "[]" r] h by auto
  have b1: "json_dumps (PyList []) = Inr ''[]''" by simp
  have b2: "fst (lambda_handler Map.empty (PyList []) None []) = Inl AttributeError"
    by (simp add: handler_defs)
  have b: "snd (lambda_handler Map.empty (PyList []) None []) = [(INFO, ''Received event: []'')]"
    using log_records_in_order [of Map.empty "PyList []" None "[]" _ "''[]''" AttributeError] b1 b2
    by simp
  have c1: "json_dumps (PyDict [(''tags'', PyOpaque ''{1, 2}'')]) = Inl TypeError" by simp
  have c: "snd (lambda_handler Map.empty (PyDict [(''tags'', PyOpaque ''{1, 2}'')]) None []) = []"
    using log_records_in_order [of Map.empty "PyDict [(''tags'', PyOpaque ''{1, 2}'')]" None "[]" _ _ TypeError] c1
    by blast
  from a b b2 c c1 show ?thesis by blast
qed

text \<open>
  \<^bold>\<open>C10.\<close> Two calls with the same context, whose events agree under the key
  \<^verbatim>\<open>name\<close> (absent in both, or the same value) and whose environments agree on
  \<^verbatim>\<open>LOG_LEVEL\<close> and \<^verbatim>\<open>STAGE\<close>, return the same response when both return. The
  other items of the event, the other variables and the log have no influence.
\<close>

theorem response_depends_only_on_name:
  assumes "map_of kvs1 ''name'' = map_of kvs2 ''name''"
    "environ1 ''LOG_LEVEL'' = environ2 ''LOG_LEVEL''" "environ1 ''STAGE'' = environ2 ''STAGE''"
    "fst (lambda_handler environ1 (PyDict kvs1) context lg1) = Inr r1"
    "fst (lambda_handler environ2 (PyDict kvs2) context lg2) = Inr r2"
  shows "r1 = r2"
  using lambda_handler_returns [OF assms(4)] lambda_handler_returns [OF assms(5)] assms(1,2,3)
  by (auto simp: environ_get_def simp del: json_dumps.simps)

text \<open>
  An instance of C10: one event has a further key and one environment a further
  variable.
\<close>

theorem response_depends_only_on_name_witness:
  "\<exists>r1 r2.
     fst (lambda_handler [''PATH'' \<mapsto> ''/bin''] (PyDict [(''name'', PyStr ''Ada''), (''id'', PyInt 7)]) None []) = Inr r1 \<and>
     fst (lambda_handler Map.empty (PyDict [(''name'', PyStr ''Ada'')]) None []) = Inr r2 \<and> r1 = r2"
proof -
  have h1: "map_of [(''name'', PyStr ''Ada''), (''id'', PyInt 7)] ''name'' = map_of [(''name'', PyStr ''Ada'')] ''name''"
    by simp
  have h2: "[''PATH'' \<mapsto> ''/bin''] ''LOG_LEVEL'' = Map.empty ''LOG_LEVEL''"
    and h3: "[''PATH'' \<mapsto> ''/bin''] ''STAGE'' = Map.empty ''STAGE''" by simp_all
  obtain r1 where h4: "fst (lambda_handler [''PATH'' \<mapsto> ''/bin''] (PyDict [(''name'', PyStr ''Ada''), (''id'', PyInt 7)]) None []) = Inr r1"
    by (simp add: handler_defs)
  obtain r2 where h5: "fst (lambda_handler Map.empty (PyDict [(''name'', PyStr ''Ada'')]) None []) = Inr r2"
    by (simp add: handler_defs)
  from response_depends_only_on_name [OF h1 h2 h3 h4 h5] h4 h5 show ?thesis by blast
qed

end
